theory Spec2Isabelle
  imports Main
begin

section \<open>The escape-sequence decoder of pypager (source.py)\<close>

text \<open>
  The theory embeds \<^verbatim>\<open>PipeSource\<close> of \<^verbatim>\<open>src/pypager/source.py\<close>: the generator
  \<^verbatim>\<open>_parse_corot\<close> as a step function on an explicit state, \<^verbatim>\<open>read_chunk\<close> as the
  loop that sends one batch to it and drains the queue, and
  \<^verbatim>\<open>_select_graphic_rendition\<close> as a recursive function on the parameter list.
  Every \<^verbatim>\<open>raise\<close> of the source, and every exception of a Python primitive it calls
  (\<^verbatim>\<open>list.pop\<close> on an empty list, \<^verbatim>\<open>int\<close> on a string it rejects, \<^verbatim>\<open>send\<close> to a
  finished generator), is a value of the type \<open>error\<close>.
\<close>

subsection \<open>Characters and the tables of the libraries\<close>

text \<open>
  The source runs under \<^verbatim>\<open>unicode_literals\<close>: a character is one Unicode code point,
  modelled by its number.
\<close>

type_synonym pychar = nat

abbreviation (input) chr_backspace :: pychar where "chr_backspace \<equiv> 8"
abbreviation (input) chr_escape :: pychar where "chr_escape \<equiv> 27"
abbreviation (input) chr_csi :: pychar where "chr_csi \<equiv> 155"
abbreviation (input) chr_bracket :: pychar where "chr_bracket \<equiv> 91"
abbreviation (input) chr_semicolon :: pychar where "chr_semicolon \<equiv> 59"
abbreviation (input) chr_m :: pychar where "chr_m \<equiv> 109"
abbreviation (input) chr_underscore :: pychar where "chr_underscore \<equiv> 95"

text \<open>The code points of an ASCII string literal, to write inputs legibly.\<close>

definition ords :: "string \<Rightarrow> pychar list" where
  "ords cs = map of_char cs"

text \<open>
  What the Unicode database says of a character: \<^verbatim>\<open>str.isdigit\<close> is true of the
  decimal digits and of the other digits (superscripts and the like); \<^verbatim>\<open>int\<close>
  accepts the decimal digits only.
\<close>

datatype digit_kind = NotDigit | Decimal nat | OtherDigit

text \<open>
  The parts of prompt_toolkit and of the Unicode database that the source reads and
  that are not in the repository are parameters of the model: the two dictionaries
  \<^verbatim>\<open>FG_ANSI_COLORS\<close> and \<^verbatim>\<open>BG_ANSI_COLORS\<close> (colour name to SGR code, as the list of
  their items), the list \<^verbatim>\<open>_256_colors_table.colors\<close> of RGB triples, and the digit
  classification of the characters beyond ASCII.
\<close>

record env =
  FG_ANSI_COLORS :: "(string \<times> int) list"
  BG_ANSI_COLORS :: "(string \<times> int) list"
  colors :: "(int \<times> int \<times> int) list"
  unicode_digit :: "pychar \<Rightarrow> digit_kind"

definition digit_class :: "env \<Rightarrow> pychar \<Rightarrow> digit_kind" where
  "digit_class E c =
     (if 48 \<le> c \<and> c \<le> 57 then Decimal (c - 48)
      else if c < 128 then NotDigit
      else unicode_digit E c)"

text \<open>\<^verbatim>\<open>char.isdigit()\<close>\<close>

definition isdigit :: "env \<Rightarrow> pychar \<Rightarrow> bool" where
  "isdigit E c = (digit_class E c \<noteq> NotDigit)"

datatype error = IndexError | ValueError | Exception "pychar list" | StopIteration

text \<open>
  \<^verbatim>\<open>int(current)\<close> on a non-empty string of characters that passed \<^verbatim>\<open>isdigit\<close>:
  the decimal value, or \<^verbatim>\<open>ValueError\<close> (here \<open>None\<close>) at a digit that is not decimal.
\<close>

fun int_digits :: "env \<Rightarrow> pychar list \<Rightarrow> int \<Rightarrow> int option" where
  "int_digits E [] acc = Some acc"
| "int_digits E (c # cs) acc =
     (case digit_class E c of
        Decimal d \<Rightarrow> int_digits E cs (10 * acc + int d)
      | _ \<Rightarrow> None)"

text \<open>\<^verbatim>\<open>int(current or 0)\<close>\<close>

definition int_current_or_0 :: "env \<Rightarrow> pychar list \<Rightarrow> int option" where
  "int_current_or_0 E current = (if current = [] then Some 0 else int_digits E current 0)"

subsection \<open>Formatting a colour: \<^verbatim>\<open>'%02x%02x%02x' % (r, g, b)\<close>\<close>

definition hexdigit :: "nat \<Rightarrow> char" where
  "hexdigit d = ''0123456789abcdef'' ! d"

fun hexstr :: "nat \<Rightarrow> string" where
  "hexstr n = (if n < 16 then [hexdigit n] else hexstr (n div 16) @ [hexdigit (n mod 16)])"

declare hexstr.simps [simp del]

text \<open>
  \<^verbatim>\<open>'%02x' % n\<close>: lower-case hexadecimal, padded with zeros to two characters;
  a negative number keeps its sign, which counts in the width.
\<close>

definition fmt_02x :: "int \<Rightarrow> string" where
  "fmt_02x n =
     (if n < 0 then CHR ''-'' # hexstr (nat (- n))
      else (let h = hexstr (nat n) in if length h < 2 then CHR ''0'' # h else h))"

definition fmt_rgb :: "int \<Rightarrow> int \<Rightarrow> int \<Rightarrow> string" where
  "fmt_rgb r g b = fmt_02x r @ fmt_02x g @ fmt_02x b"

subsection \<open>The module-level dictionaries\<close>

text \<open>
  \<^verbatim>\<open>dict((v, k) for k, v in FG_ANSI_COLORS.items())\<close>: a later item overwrites an
  earlier one with the same code.
\<close>

definition invert_dict :: "(string \<times> int) list \<Rightarrow> int \<rightharpoonup> string" where
  "invert_dict items = fold (\<lambda>(k, v) m. m(v \<mapsto> k)) items Map.empty"

definition fg_colors :: "env \<Rightarrow> int \<rightharpoonup> string" where
  "fg_colors E = invert_dict (FG_ANSI_COLORS E)"

definition bg_colors :: "env \<Rightarrow> int \<rightharpoonup> string" where
  "bg_colors E = invert_dict (BG_ANSI_COLORS E)"

text \<open>
  \<^verbatim>\<open>for i, (r, g, b) in enumerate(_256_colors_table.colors):
      _256_colors[1024 + i] = '%02x%02x%02x' % (r, g, b)\<close>
\<close>

definition table_256_colors :: "env \<Rightarrow> int \<rightharpoonup> string" where
  "table_256_colors E =
     fold (\<lambda>(i, (r, g, b)) m. m(1024 + int i \<mapsto> fmt_rgb r g b))
       (enumerate 0 (colors E)) Map.empty"

subsection \<open>Style attributes and tokens\<close>

text \<open>The named tuple \<^verbatim>\<open>Attrs\<close> of prompt_toolkit, with the fields the source names.\<close>

record attrs =
  color :: "string option"
  bgcolor :: "string option"
  bold :: bool
  underline :: bool
  italic :: bool
  blink :: bool
  reverse :: bool

definition default_attrs :: attrs where
  "default_attrs =
     \<lparr>color = None, bgcolor = None, bold = False, underline = False,
      italic = False, blink = False, reverse = False\<rparr>"

text \<open>
  The values of the generator's variable \<^verbatim>\<open>token\<close>: \<^verbatim>\<open>Token\<close>, \<^verbatim>\<open>Token.Standout\<close>,
  \<^verbatim>\<open>Token.Standout2\<close>, or the tuple \<^verbatim>\<open>('C', ) + self._attrs\<close>.
\<close>

datatype token = Token | Standout | Standout2 | C attrs

text \<open>
  The dictionary \<^verbatim>\<open>replace\<close> of \<^verbatim>\<open>_select_graphic_rendition\<close>: one optional entry for
  each field of \<^verbatim>\<open>Attrs\<close>. An entry that is present may hold \<^verbatim>\<open>None\<close> (a colour that
  \<^verbatim>\<open>_256_colors.get\<close> did not find).
\<close>

record replace =
  r_color :: "string option option"
  r_bgcolor :: "string option option"
  r_bold :: "bool option"
  r_underline :: "bool option"
  r_italic :: "bool option"
  r_blink :: "bool option"
  r_reverse :: "bool option"

definition empty_replace :: replace where
  "empty_replace =
     \<lparr>r_color = None, r_bgcolor = None, r_bold = None, r_underline = None,
      r_italic = None, r_blink = None, r_reverse = None\<rparr>"

text \<open>
  \<^verbatim>\<open>self._attrs._replace\<close> called with the entries of \<^verbatim>\<open>replace\<close> as its keyword
  arguments.
\<close>

definition apply_replace :: "replace \<Rightarrow> attrs \<Rightarrow> attrs" where
  "apply_replace rep a =
     \<lparr>color = (case r_color rep of None \<Rightarrow> color a | Some v \<Rightarrow> v),
      bgcolor = (case r_bgcolor rep of None \<Rightarrow> bgcolor a | Some v \<Rightarrow> v),
      bold = (case r_bold rep of None \<Rightarrow> bold a | Some v \<Rightarrow> v),
      underline = (case r_underline rep of None \<Rightarrow> underline a | Some v \<Rightarrow> v),
      italic = (case r_italic rep of None \<Rightarrow> italic a | Some v \<Rightarrow> v),
      blink = (case r_blink rep of None \<Rightarrow> blink a | Some v \<Rightarrow> v),
      reverse = (case r_reverse rep of None \<Rightarrow> reverse a | Some v \<Rightarrow> v)\<rparr>"

subsection \<open>\<^verbatim>\<open>_select_graphic_rendition\<close>\<close>

text \<open>
  \<^verbatim>\<open>replace["color"] = v\<close> when \<^verbatim>\<open>attr == 38\<close>, \<^verbatim>\<open>replace["bgcolor"] = v\<close> when
  \<^verbatim>\<open>attr == 48\<close>.
\<close>

definition set_color_of :: "int \<Rightarrow> string option \<Rightarrow> replace \<Rightarrow> replace" where
  "set_color_of attr v rep =
     (if attr = 38 then rep\<lparr>r_color := Some v\<rparr>
      else if attr = 48 then rep\<lparr>r_bgcolor := Some v\<rparr>
      else rep)"

text \<open>
  The block \<^verbatim>\<open>if n == 5\<close>: \<^verbatim>\<open>m = attrs.pop()\<close> raises \<^verbatim>\<open>IndexError\<close> on the empty list,
  and nothing catches it.
\<close>

definition color_256 ::
  "env \<Rightarrow> int \<Rightarrow> int \<Rightarrow> int list \<Rightarrow> replace \<Rightarrow> error + (int list \<times> replace)" where
  "color_256 E attr n rest rep =
     (if n = 5 then
        (case rest of
           [] \<Rightarrow> Inl IndexError
         | m # rest' \<Rightarrow> Inr (rest', set_color_of attr (table_256_colors E (1024 + m)) rep))
      else Inr (rest, rep))"

text \<open>
  The block \<^verbatim>\<open>if n == 2\<close>: the three \<^verbatim>\<open>attrs.pop()\<close> are evaluated in turn inside
  \<^verbatim>\<open>try\<close>; when one finds the list empty the \<^verbatim>\<open>IndexError\<close> is caught and passed
  over, the parameters popped so far being gone.
\<close>

definition true_color :: "int \<Rightarrow> int \<Rightarrow> int list \<Rightarrow> replace \<Rightarrow> int list \<times> replace" where
  "true_color attr n rest rep =
     (if n = 2 then
        (case rest of
           r # g # b # rest' \<Rightarrow> (rest', set_color_of attr (Some (fmt_rgb r g b)) rep)
         | _ \<Rightarrow> ([], rep))
      else (rest, rep))"

text \<open>
  One turn of \<^verbatim>\<open>while attrs:\<close> after \<^verbatim>\<open>attr = attrs.pop()\<close>. The state is the rest of
  the list, the dictionary \<^verbatim>\<open>replace\<close> and \<^verbatim>\<open>self._attrs\<close>.
\<close>

definition sgr_body ::
  "env \<Rightarrow> int \<Rightarrow> int list \<Rightarrow> replace \<Rightarrow> attrs \<Rightarrow> error + (int list \<times> replace \<times> attrs)" where
  "sgr_body E attr rest rep a =
     (case fg_colors E attr of
        Some k \<Rightarrow> Inr (rest, rep\<lparr>r_color := Some (Some k)\<rparr>, a)
      | None \<Rightarrow>
     (case bg_colors E attr of
        Some k \<Rightarrow> Inr (rest, rep\<lparr>r_bgcolor := Some (Some k)\<rparr>, a)
      | None \<Rightarrow>
        if attr = 1 then Inr (rest, rep\<lparr>r_bold := Some True\<rparr>, a)
        else if attr = 3 then Inr (rest, rep\<lparr>r_italic := Some True\<rparr>, a)
        else if attr = 4 then Inr (rest, rep\<lparr>r_underline := Some True\<rparr>, a)
        else if attr = 5 then Inr (rest, rep\<lparr>r_blink := Some True\<rparr>, a)
        else if attr = 6 then Inr (rest, rep\<lparr>r_blink := Some True\<rparr>, a)
        else if attr = 7 then Inr (rest, rep\<lparr>r_reverse := Some True\<rparr>, a)
        else if attr = 22 then Inr (rest, rep\<lparr>r_bold := Some False\<rparr>, a)
        else if attr = 23 then Inr (rest, rep\<lparr>r_italic := Some False\<rparr>, a)
        else if attr = 24 then Inr (rest, rep\<lparr>r_underline := Some False\<rparr>, a)
        else if attr = 25 then Inr (rest, rep\<lparr>r_blink := Some False\<rparr>, a)
        else if attr = 27 then Inr (rest, rep\<lparr>r_reverse := Some False\<rparr>, a)
        else if attr = 0 then Inr (rest, empty_replace, default_attrs)
        else if attr = 38 \<or> attr = 48 then
          (case rest of
             [] \<Rightarrow> Inl IndexError
           | n # rest1 \<Rightarrow>
               (case color_256 E attr n rest1 rep of
                  Inl e \<Rightarrow> Inl e
                | Inr (rest2, rep2) \<Rightarrow>
                    (case true_color attr n rest2 rep2 of
                       (rest3, rep3) \<Rightarrow> Inr (rest3, rep3, a))))
        else Inr (rest, rep, a)))"

text \<open>
  The loop \<^verbatim>\<open>while attrs:\<close> and the final assignment of the replaced tuple to
  \<^verbatim>\<open>self._attrs\<close>.
  The list is the reversed copy read from its end, that is the parameters from left
  to right. The result is the exception raised, if any, and the value of
  \<^verbatim>\<open>self._attrs\<close> when the function is left.
\<close>

function sgr_loop :: "env \<Rightarrow> int list \<Rightarrow> replace \<Rightarrow> attrs \<Rightarrow> error option \<times> attrs" where
  "sgr_loop E [] rep a = (None, apply_replace rep a)"
| "sgr_loop E (attr # rest) rep a =
     (case sgr_body E attr rest rep a of
        Inl e \<Rightarrow> (Some e, a)
      | Inr (rest', rep', a') \<Rightarrow> sgr_loop E rest' rep' a')"
  by pat_completeness auto
termination
  by (relation "measure (\<lambda>(E, l, rep, a). length l)")
     (auto simp: sgr_body_def color_256_def true_color_def
        split: option.splits if_splits list.splits sum.splits prod.splits)

definition select_graphic_rendition :: "env \<Rightarrow> int list \<Rightarrow> attrs \<Rightarrow> error option \<times> attrs" where
  "select_graphic_rendition E params a =
     sgr_loop E (if params = [] then [0] else params) empty_replace a"

subsection \<open>The generator \<^verbatim>\<open>_parse_corot\<close> and \<^verbatim>\<open>read_chunk\<close>\<close>

text \<open>
  Where the generator waits: at \<^verbatim>\<open>c = yield\<close> (\<open>Normal\<close>), at
  \<^verbatim>\<open>square_bracket = yield\<close> (\<open>AfterEscape\<close>), at \<^verbatim>\<open>char = yield\<close> with the locals
  \<^verbatim>\<open>current\<close> and \<^verbatim>\<open>params\<close> (\<open>InCSI\<close>); or it has ended with an exception
  (\<open>Finished\<close>), after which \<^verbatim>\<open>send\<close> raises \<^verbatim>\<open>StopIteration\<close>.
\<close>

datatype pc = Normal | AfterEscape | InCSI "pychar list" "int list" | Finished

text \<open>
  The object and the locals of its generator: \<^verbatim>\<open>self._line_tokens\<close>, \<^verbatim>\<open>self._eof\<close>,
  \<^verbatim>\<open>self._attrs\<close>, and \<^verbatim>\<open>token\<close>, \<^verbatim>\<open>replace_one_token\<close> with the place of control.
\<close>

record pipe_source =
  line_tokens :: "(token \<times> pychar) list"
  eof :: bool
  self_attrs :: attrs
  token :: token
  replace_one_token :: bool
  pc :: pc

text \<open>The object after \<^verbatim>\<open>__init__\<close>, the generator advanced to its first \<^verbatim>\<open>yield\<close>.\<close>

definition init :: pipe_source where
  "init =
     \<lparr>line_tokens = [], eof = False, self_attrs = default_attrs, token = Token,
      replace_one_token = False, pc = Normal\<rparr>"

text \<open>
  \<^verbatim>\<open>self._parser.send(c)\<close>: the generator runs from the \<^verbatim>\<open>yield\<close> it waits at to the
  next one. The result is the exception that leaves \<^verbatim>\<open>send\<close>, if any, and the new
  state.
\<close>

definition send :: "env \<Rightarrow> pychar \<Rightarrow> pipe_source \<Rightarrow> error option \<times> pipe_source" where
  "send E c s =
     (case pc s of
        Finished \<Rightarrow> (Some StopIteration, s)
      | Normal \<Rightarrow>
          if c = chr_backspace then
            (if line_tokens s \<noteq> [] then
               (let last_char = snd (last (line_tokens s)) in
                (None, s\<lparr>line_tokens := butlast (line_tokens s),
                         replace_one_token := True,
                         token := (if last_char = chr_underscore then Standout2 else Standout)\<rparr>))
             else (None, s))
          else if c = chr_escape then (None, s\<lparr>pc := AfterEscape\<rparr>)
          else if c = chr_csi then (None, s\<lparr>pc := InCSI [] []\<rparr>)
          else
            (None, s\<lparr>line_tokens := line_tokens s @ [(token s, c)],
                     token := (if replace_one_token s then Token else token s)\<rparr>)
      | AfterEscape \<Rightarrow>
          if c = chr_bracket then (None, s\<lparr>pc := InCSI [] []\<rparr>)
          else (None, s\<lparr>pc := Normal\<rparr>)
      | InCSI current params \<Rightarrow>
          if isdigit E c then (None, s\<lparr>pc := InCSI (current @ [c]) params\<rparr>)
          else
            (case int_current_or_0 E current of
               None \<Rightarrow> (Some ValueError, s\<lparr>pc := Finished\<rparr>)
             | Some v \<Rightarrow>
                 (let params' = params @ [min v 9999] in
                  if c = chr_semicolon then (None, s\<lparr>pc := InCSI [] params'\<rparr>)
                  else if c = chr_m then
                    (case select_graphic_rendition E params' (self_attrs s) of
                       (Some e, a) \<Rightarrow> (Some e, s\<lparr>self_attrs := a, pc := Finished\<rparr>)
                     | (None, a) \<Rightarrow> (None, s\<lparr>self_attrs := a, token := C a, pc := Normal\<rparr>))
                  else (Some (Exception [c]), s\<lparr>pc := Finished\<rparr>))))"

text \<open>\<^verbatim>\<open>for c in data: self._parser.send(c)\<close>: the first exception ends the loop.\<close>

fun feed :: "env \<Rightarrow> pychar list \<Rightarrow> pipe_source \<Rightarrow> error option \<times> pipe_source" where
  "feed E [] s = (None, s)"
| "feed E (c # cs) s =
     (case send E c s of
        (Some e, s') \<Rightarrow> (Some e, s')
      | (None, s') \<Rightarrow> feed E cs s')"

text \<open>
  \<^verbatim>\<open>read_chunk\<close>, with the batch that \<^verbatim>\<open>self._stdin_reader.read()\<close> returned as an
  argument. An exception of the parser leaves \<^verbatim>\<open>read_chunk\<close> before the queue is
  copied and emptied.
\<close>

definition read_chunk ::
  "env \<Rightarrow> pychar list \<Rightarrow> pipe_source \<Rightarrow> (error + (token \<times> pychar) list) \<times> pipe_source" where
  "read_chunk E data s =
     (case feed E data (if data = [] then s\<lparr>eof := True\<rparr> else s) of
        (Some e, s') \<Rightarrow> (Inl e, s')
      | (None, s') \<Rightarrow> (Inr (line_tokens s'), s'\<lparr>line_tokens := []\<rparr>))"

text \<open>
  Successive calls of \<^verbatim>\<open>read_chunk\<close>, one for each batch: the lists of tokens
  returned, or the exception that left one of the calls.
\<close>

fun read_chunks ::
  "env \<Rightarrow> pychar list list \<Rightarrow> pipe_source \<Rightarrow> (error + (token \<times> pychar) list list) \<times> pipe_source" where
  "read_chunks E [] s = (Inr [], s)"
| "read_chunks E (d # ds) s =
     (case read_chunk E d s of
        (Inl e, s') \<Rightarrow> (Inl e, s')
      | (Inr ts, s') \<Rightarrow>
          (case read_chunks E ds s' of
             (Inl e, s'') \<Rightarrow> (Inl e, s'')
           | (Inr tss, s'') \<Rightarrow> (Inr (ts # tss), s'')))"

subsection \<open>A concrete environment\<close>

text \<open>
  Modelled from the spec: the tables of prompt_toolkit are not in the repository. This
  instance has the legacy codes 30-37 and 90-97 for the foreground, 40-47 and 100-107
  for the background (with the names prompt_toolkit gives them, and its code for the
  default colour), and the 256-entry palette of xterm: 16 basic colours, the 6x6x6
  cube, 24 greys. Beyond ASCII it knows the Arabic-Indic decimal digits and the
  superscript digits of Latin-1. It serves to run the decoder on concrete inputs.
\<close>

definition sample_palette :: "(int \<times> int \<times> int) list" where
  "sample_palette =
     [(0, 0, 0), (205, 0, 0), (0, 205, 0), (205, 205, 0),
      (0, 0, 238), (205, 0, 205), (0, 205, 205), (229, 229, 229),
      (127, 127, 127), (255, 0, 0), (0, 255, 0), (255, 255, 0),
      (92, 92, 255), (255, 0, 255), (0, 255, 255), (255, 255, 255)]
     @ map (\<lambda>i. ([0, 95, 135, 175, 215, 255] ! (i div 36 mod 6),
                  [0, 95, 135, 175, 215, 255] ! (i div 6 mod 6),
                  [0, 95, 135, 175, 215, 255] ! (i mod 6))) [0..<216]
     @ map (\<lambda>i. (8 + 10 * int i, 8 + 10 * int i, 8 + 10 * int i)) [0..<24]"

definition sample_unicode_digit :: "pychar \<Rightarrow> digit_kind" where
  "sample_unicode_digit c =
     (if 1632 \<le> c \<and> c \<le> 1641 then Decimal (c - 1632)
      else if c = 178 \<or> c = 179 \<or> c = 185 then OtherDigit
      else NotDigit)"

definition sample_env :: env where
  "sample_env =
     \<lparr>FG_ANSI_COLORS =
        [(''ansidefault'', 39),
         (''ansiblack'', 30), (''ansidarkred'', 31), (''ansidarkgreen'', 32),
         (''ansibrown'', 33), (''ansidarkblue'', 34), (''ansipurple'', 35),
         (''ansiteal'', 36), (''ansilightgray'', 37),
         (''ansidarkgray'', 90), (''ansired'', 91), (''ansigreen'', 92),
         (''ansiyellow'', 93), (''ansiblue'', 94), (''ansifuchsia'', 95),
         (''ansiturquoise'', 96), (''ansiwhite'', 97)],
      BG_ANSI_COLORS =
        [(''ansidefault'', 49),
         (''ansiblack'', 40), (''ansidarkred'', 41), (''ansidarkgreen'', 42),
         (''ansibrown'', 43), (''ansidarkblue'', 44), (''ansipurple'', 45),
         (''ansiteal'', 46), (''ansilightgray'', 47),
         (''ansidarkgray'', 100), (''ansired'', 101), (''ansigreen'', 102),
         (''ansiyellow'', 103), (''ansiblue'', 104), (''ansifuchsia'', 105),
         (''ansiturquoise'', 106), (''ansiwhite'', 107)],
      colors = sample_palette,
      unicode_digit = sample_unicode_digit\<rparr>"

subsection \<open>Auxiliary notions for the properties\<close>

text \<open>The local \<^verbatim>\<open>params\<close> of a generator that waits inside the CSI loop.\<close>

definition params_of :: "pc \<Rightarrow> int list" where
  "params_of p = (case p of InCSI current params \<Rightarrow> params | _ \<Rightarrow> [])"

text \<open>The local \<^verbatim>\<open>current\<close> of a generator that waits inside the CSI loop.\<close>

definition current_of :: "pc \<Rightarrow> pychar list" where
  "current_of p = (case p of InCSI current params \<Rightarrow> current | _ \<Rightarrow> [])"

text \<open>
  A batch is guarded when no backspace of it is read at the top of the loop with an
  empty queue while an earlier call of \<^verbatim>\<open>read_chunk\<close> has returned tokens (\<open>drained\<close>):
  the token that such a backspace overstrikes has left the queue.
\<close>

fun backspaces_guarded :: "env \<Rightarrow> bool \<Rightarrow> pychar list \<Rightarrow> pipe_source \<Rightarrow> bool" where
  "backspaces_guarded E drained [] s = True"
| "backspaces_guarded E drained (c # cs) s =
     (\<not> (drained \<and> pc s = Normal \<and> c = chr_backspace \<and> line_tokens s = []) \<and>
      (case send E c s of
         (None, s') \<Rightarrow> backspaces_guarded E drained cs s'
       | (Some e, s') \<Rightarrow> True))"

text \<open>The batches of a partition are guarded, each in the state the ones before it leave.\<close>

fun chunks_guarded :: "env \<Rightarrow> bool \<Rightarrow> pychar list list \<Rightarrow> pipe_source \<Rightarrow> bool" where
  "chunks_guarded E drained [] s = True"
| "chunks_guarded E drained (d # ds) s =
     (backspaces_guarded E drained d s \<and>
      (case read_chunk E d s of
         (Inr ts, s') \<Rightarrow> chunks_guarded E (drained \<or> ts \<noteq> []) ds s'
       | (Inl e, s') \<Rightarrow> True))"

text \<open>
  The same decoder with the tokens \<open>pre\<close> still in the queue, before the ones it holds,
  and the end-of-input flag \<open>b\<close>.
\<close>

definition queued_after :: "(token \<times> pychar) list \<Rightarrow> bool \<Rightarrow> pipe_source \<Rightarrow> pipe_source" where
  "queued_after pre b s = s\<lparr>line_tokens := pre @ line_tokens s, eof := b\<rparr>"

section \<open>Properties\<close>

subsection \<open>Evaluation of the primitives\<close>

lemma isdigit_ascii:
  "c < 128 \<Longrightarrow> isdigit E c = (48 \<le> c \<and> c \<le> 57)"
  by (simp add: isdigit_def digit_class_def)

lemma digit_class_ascii_digit:
  "48 \<le> c \<Longrightarrow> c \<le> 57 \<Longrightarrow> digit_class E c = Decimal (c - 48)"
  by (simp add: digit_class_def)

lemma fmt_02x_samples:
  "fmt_02x 10 = ''0a''" "fmt_02x 20 = ''14''" "fmt_02x 30 = ''1e''"
  by (simp_all add: fmt_02x_def hexstr.simps hexdigit_def)

lemma fmt_rgb_10_20_30: "fmt_rgb 10 20 30 = ''0a141e''"
  by (simp add: fmt_rgb_def fmt_02x_samples)

lemmas sample_tables =
  fg_colors_def bg_colors_def invert_dict_def sample_env_def

lemma sample_env_free:
  "fg_colors sample_env 38 = None" "bg_colors sample_env 38 = None"
  "fg_colors sample_env 48 = None" "bg_colors sample_env 48 = None"
  by (simp_all add: sample_tables)

lemma sample_palette_length: "length (colors sample_env) = 256"
  by (simp add: sample_env_def sample_palette_def)

text \<open>The equations that run the decoder on a concrete input in a concrete environment.\<close>

lemmas run_defs =
  read_chunk_def ords_def send_def init_def isdigit_ascii digit_class_ascii_digit
  int_current_or_0_def select_graphic_rendition_def sgr_body_def color_256_def true_color_def
  set_color_of_def apply_replace_def empty_replace_def default_attrs_def sample_tables

subsection \<open>The tests of section 8 of the specification\<close>

lemma plain_text_hello:
  "fst (read_chunk sample_env (ords ''hello'') init) =
     Inr [(Token, 104), (Token, 101), (Token, 108), (Token, 108), (Token, 111)]"
  by (simp add: run_defs)

lemma bold_overstrike:
  "fst (read_chunk sample_env (ords ''A'' @ chr_backspace # ords ''A'') init) = Inr [(Standout, 65)]"
  by (simp add: run_defs)

lemma underline_overstrike:
  "fst (read_chunk sample_env (ords ''_'' @ chr_backspace # ords ''A'') init) = Inr [(Standout2, 65)]"
  by (simp add: run_defs)

lemma reset_sequencing:
  "fst (read_chunk sample_env (chr_escape # ords ''[31mx'' @ chr_escape # ords ''[0my'') init) =
     Inr [(C (default_attrs\<lparr>color := Some ''ansidarkred''\<rparr>), 120), (C default_attrs, 121)]"
  by (simp add: run_defs)

lemma unknown_code_99:
  "select_graphic_rendition sample_env [99] a = (None, a)"
  by (simp add: run_defs)

subsection \<open>Escape sequences that are not SGR sequences\<close>

text \<open>
  Claim C1, as the specification states it: a CSI sequence that ends in a character
  other than a digit, \<^verbatim>\<open>;\<close> or \<^verbatim>\<open>m\<close> is dropped, the decoder is back in \<open>Normal\<close> at the
  next character and no error reaches the caller. The code does otherwise: on
  \<^verbatim>\<open>ESC [ 3 1 x\<close> the generator executes \<^verbatim>\<open>raise Exception(str(char))\<close>, the exception
  leaves \<^verbatim>\<open>read_chunk\<close>, and the generator has ended.
\<close>

theorem malformed_csi_counterexample:
  "read_chunk sample_env (chr_escape # ords ''[31x'') init =
     (Inl (Exception (ords ''x'')), init\<lparr>pc := Finished\<rparr>)"
  by (simp add: run_defs)

text \<open>
  Claim C1, amended to what the code does: when the generator waits inside the CSI loop
  and receives a character that is not a digit, not \<^verbatim>\<open>;\<close> and not \<^verbatim>\<open>m\<close>, no token is
  added and no style changes, but an exception reaches the caller: \<^verbatim>\<open>Exception\<close> with
  that character, or \<^verbatim>\<open>ValueError\<close> when \<^verbatim>\<open>int\<close> rejects the digits read so far. The
  generator has then ended, and every later character raises \<^verbatim>\<open>StopIteration\<close>.
\<close>

theorem malformed_csi_terminator:
  assumes "pc s = InCSI current params"
    and "\<not> isdigit E c" and "c \<noteq> chr_semicolon" and "c \<noteq> chr_m"
  shows "send E c s =
           (Some (if int_current_or_0 E current = None then ValueError else Exception [c]),
            s\<lparr>pc := Finished\<rparr>)
       \<and> send E c' (s\<lparr>pc := Finished\<rparr>) = (Some StopIteration, s\<lparr>pc := Finished\<rparr>)"
  using assms by (auto simp: send_def split: option.splits)

theorem malformed_csi_terminator_witness:
  "pc (init\<lparr>pc := InCSI (ords ''31'') []\<rparr>) = InCSI (ords ''31'') []
   \<and> \<not> isdigit sample_env 120 \<and> (120::nat) \<noteq> chr_semicolon \<and> (120::nat) \<noteq> chr_m
   \<and> send sample_env 120 (init\<lparr>pc := InCSI (ords ''31'') []\<rparr>) =
       (Some (Exception [120]), init\<lparr>pc := Finished\<rparr>)
   \<and> send sample_env 65 (init\<lparr>pc := Finished\<rparr>) = (Some StopIteration, init\<lparr>pc := Finished\<rparr>)"
  using malformed_csi_terminator
    [of "init\<lparr>pc := InCSI (ords ''31'') []\<rparr>" "ords ''31''" "[]" sample_env 120 65]
  by (simp add: run_defs)

text \<open>
  Claim C7: from \<open>Normal\<close>, the character ESC followed by any character other than \<^verbatim>\<open>[\<close>
  adds no token, raises nothing and leaves the decoder in \<open>Normal\<close>: the state after the
  two characters is the state before them.
\<close>

theorem escape_unsupported_introducer:
  assumes "pc s = Normal" and "c \<noteq> chr_bracket"
  shows "feed E [chr_escape, c] s = (None, s)"
  using assms by (cases s) (simp add: send_def)

theorem escape_unsupported_introducer_witness:
  "pc init = Normal \<and> (120::nat) \<noteq> chr_bracket
   \<and> feed sample_env [chr_escape, 120] init = (None, init)"
  using escape_unsupported_introducer [of init 120 sample_env] by (simp add: init_def)

subsection \<open>Backspace\<close>

text \<open>
  Claim C6: when the generator waits at the top of its loop and the queue holds no
  token, a backspace does nothing: no token, no change of \<^verbatim>\<open>token\<close>,
  \<^verbatim>\<open>replace_one_token\<close> or \<^verbatim>\<open>self._attrs\<close>, no exception. The state is unchanged.
\<close>

theorem backspace_without_prior_token:
  assumes "pc s = Normal" and "line_tokens s = []"
  shows "send E chr_backspace s = (None, s)"
  using assms by (simp add: send_def)

theorem backspace_without_prior_token_witness:
  "pc init = Normal \<and> line_tokens init = [] \<and> send sample_env chr_backspace init = (None, init)"
  using backspace_without_prior_token [of init sample_env] by (simp add: init_def)

subsection \<open>Parameters of a CSI sequence\<close>

text \<open>
  Claim C9: for every run of digits accumulated inside a CSI sequence, \<^verbatim>\<open>;\<close> and \<^verbatim>\<open>m\<close> push
  the accumulated value, clamped to 9999, and the accumulator is reset. The code
  accumulates every character that \<^verbatim>\<open>isdigit\<close> accepts and converts the run with
  \<^verbatim>\<open>int\<close>, which accepts fewer: the superscript two (U+00B2, code point 178) is a digit
  for \<^verbatim>\<open>isdigit\<close> and is accumulated, and at the \<^verbatim>\<open>;\<close> or the \<^verbatim>\<open>m\<close> that follows
  \<^verbatim>\<open>int(current or 0)\<close> raises \<^verbatim>\<open>ValueError\<close>: nothing is pushed, the exception leaves
  \<^verbatim>\<open>read_chunk\<close> and the generator has ended.
\<close>

theorem non_decimal_digit_run_raises:
  "isdigit sample_env 178
   \<and> feed sample_env (chr_escape # ords ''['' @ [178]) init = (None, init\<lparr>pc := InCSI [178] []\<rparr>)
   \<and> read_chunk sample_env (chr_escape # ords ''['' @ [178, chr_semicolon]) init =
       (Inl ValueError, init\<lparr>pc := Finished\<rparr>)
   \<and> read_chunk sample_env (chr_escape # ords ''['' @ [178, chr_m]) init =
       (Inl ValueError, init\<lparr>pc := Finished\<rparr>)"
  by (simp add: run_defs isdigit_def digit_class_def sample_unicode_digit_def)

text \<open>
  The bound on the parameters is an invariant of \<^verbatim>\<open>send\<close>, hence of a batch and of
  successive calls of \<^verbatim>\<open>read_chunk\<close>.
\<close>

lemma send_params_bounded:
  assumes "\<forall>p \<in> set (params_of (pc s)). p \<le> 9999"
  shows "\<forall>p \<in> set (params_of (pc (snd (send E c s)))). p \<le> 9999"
proof (cases "pc s")
  case (InCSI current params)
  then show ?thesis
    using assms
    by (auto simp: send_def params_of_def Let_def split: option.splits prod.splits)
qed (auto simp: send_def params_of_def)

lemma feed_params_bounded:
  assumes "\<forall>p \<in> set (params_of (pc s)). p \<le> 9999"
  shows "\<forall>p \<in> set (params_of (pc (snd (feed E data s)))). p \<le> 9999"
  using assms
proof (induction data arbitrary: s)
  case Nil
  then show ?case by simp
next
  case (Cons c cs)
  obtain r s' where r: "send E c s = (r, s')" by (cases "send E c s")
  have b: "\<forall>p \<in> set (params_of (pc s')). p \<le> 9999"
    using send_params_bounded [OF Cons.prems, of E c] by (simp add: r)
  show ?case
  proof (cases r)
    case None
    then show ?thesis using Cons.IH [OF b] by (simp add: r)
  next
    case (Some e)
    then show ?thesis using b by (simp add: r)
  qed
qed

lemma read_chunk_params_bounded:
  assumes "\<forall>p \<in> set (params_of (pc s)). p \<le> 9999"
  shows "\<forall>p \<in> set (params_of (pc (snd (read_chunk E d s)))). p \<le> 9999"
proof -
  define s0 where "s0 = (if d = [] then s\<lparr>eof := True\<rparr> else s)"
  have "\<forall>p \<in> set (params_of (pc s0)). p \<le> 9999"
    using assms by (simp add: s0_def)
  from feed_params_bounded [OF this, of E d] show ?thesis
    by (auto simp: read_chunk_def s0_def split: prod.splits option.splits)
qed

lemma read_chunks_params_bounded:
  assumes "\<forall>p \<in> set (params_of (pc s)). p \<le> 9999"
  shows "\<forall>p \<in> set (params_of (pc (snd (read_chunks E ds s)))). p \<le> 9999"
  using assms
proof (induction ds arbitrary: s)
  case Nil
  then show ?case by simp
next
  case (Cons d ds)
  obtain r s1 where r: "read_chunk E d s = (r, s1)" by (cases "read_chunk E d s")
  have b: "\<forall>p \<in> set (params_of (pc s1)). p \<le> 9999"
    using read_chunk_params_bounded [OF Cons.prems, of E d] by (simp add: r)
  show ?case
  proof (cases r)
    case (Inl e)
    then show ?thesis using b by (simp add: r)
  next
    case (Inr ts)
    then show ?thesis
      using Cons.IH [OF b] by (auto simp: r split: prod.splits sum.splits)
  qed
qed

text \<open>
  The part of claim C9 that the code keeps, in every state that calls of \<^verbatim>\<open>read_chunk\<close>
  and the characters of a batch in progress lead to from the initial one: when \<^verbatim>\<open>int\<close>
  accepts the accumulated digits, with the value \<open>v\<close>, the character \<^verbatim>\<open>;\<close> appends
  \<open>min v 9999\<close> and empties the accumulator, the character \<^verbatim>\<open>m\<close> calls the resolver
  with the parameters followed by \<open>min v 9999\<close>, and every integer of that list is at
  most 9999. When \<^verbatim>\<open>int\<close> rejects them, both characters raise \<^verbatim>\<open>ValueError\<close>.
\<close>

lemma csi_parameter_push:
  assumes "read_chunks E batches init = (r, s0)"
    and "feed E data s0 = (None, s)"
    and "pc s = InCSI current params"
  shows "case int_current_or_0 E current of
           None \<Rightarrow>
             send E chr_semicolon s = (Some ValueError, s\<lparr>pc := Finished\<rparr>)
             \<and> send E chr_m s = (Some ValueError, s\<lparr>pc := Finished\<rparr>)
         | Some v \<Rightarrow>
             send E chr_semicolon s = (None, s\<lparr>pc := InCSI [] (params @ [min v 9999])\<rparr>)
             \<and> send E chr_m s =
                 (case select_graphic_rendition E (params @ [min v 9999]) (self_attrs s) of
                    (Some e, a) \<Rightarrow> (Some e, s\<lparr>self_attrs := a, pc := Finished\<rparr>)
                  | (None, a) \<Rightarrow> (None, s\<lparr>self_attrs := a, token := C a, pc := Normal\<rparr>))
             \<and> (\<forall>p \<in> set (params @ [min v 9999]). p \<le> 9999)"
proof -
  have "\<forall>p \<in> set (params_of (pc (snd (read_chunks E batches init)))). p \<le> 9999"
    by (rule read_chunks_params_bounded) (simp add: init_def params_of_def)
  then have "\<forall>p \<in> set (params_of (pc s0)). p \<le> 9999"
    by (simp add: assms(1))
  from feed_params_bounded [OF this, of E data]
  have "\<forall>p \<in> set params. p \<le> 9999"
    using assms(2,3) by (simp add: params_of_def)
  then show ?thesis
    using assms(3) by (simp add: send_def isdigit_ascii split: option.splits)
qed

lemma csi_parameter_push_sample:
  "read_chunks sample_env [ords ''a'' @ chr_backspace # ords ''b''] init =
     (Inr [[(Standout, 98)]], init\<lparr>replace_one_token := True\<rparr>)
   \<and> feed sample_env (chr_escape # ords ''[1;12345'') (init\<lparr>replace_one_token := True\<rparr>) =
       (None, init\<lparr>replace_one_token := True, pc := InCSI (ords ''12345'') [1]\<rparr>)
   \<and> int_current_or_0 sample_env (ords ''12345'') = Some 12345
   \<and> send sample_env chr_semicolon
         (init\<lparr>replace_one_token := True, pc := InCSI (ords ''12345'') [1]\<rparr>) =
       (None, init\<lparr>replace_one_token := True, pc := InCSI [] [1, 9999]\<rparr>)"
  using csi_parameter_push
    [of sample_env "[ords ''a'' @ chr_backspace # ords ''b'']" "Inr [[(Standout, 98)]]"
        "init\<lparr>replace_one_token := True\<rparr>" "chr_escape # ords ''[1;12345''"
        "init\<lparr>replace_one_token := True, pc := InCSI (ords ''12345'') [1]\<rparr>"
        "ords ''12345''" "[1]"]
  by (simp add: run_defs)

subsection \<open>Colours of the SGR resolver\<close>

lemma sgr_truecolor_fg:
  assumes "fg_colors E 38 = None" and "bg_colors E 38 = None"
  shows "select_graphic_rendition E [38, 2, 10, 20, 30] a = (None, a\<lparr>color := Some ''0a141e''\<rparr>)"
  using assms
  by (simp add: select_graphic_rendition_def sgr_body_def color_256_def true_color_def
      set_color_of_def apply_replace_def empty_replace_def fmt_rgb_10_20_30)

lemma feed_truecolor_escape:
  assumes "pc s = Normal" and "fg_colors E 38 = None" and "bg_colors E 38 = None"
  shows "feed E (chr_escape # ords ''[38;2;10;20;30mw'') s =
           (None, s\<lparr>line_tokens :=
                       line_tokens s @ [(C ((self_attrs s)\<lparr>color := Some ''0a141e''\<rparr>), 119)],
                    self_attrs := (self_attrs s)\<lparr>color := Some ''0a141e''\<rparr>,
                    token := (if replace_one_token s then Token
                              else C ((self_attrs s)\<lparr>color := Some ''0a141e''\<rparr>))\<rparr>)"
  using assms
  by (simp add: ords_def send_def isdigit_ascii digit_class_ascii_digit int_current_or_0_def
      sgr_truecolor_fg)

lemma feed_truecolor_csi:
  assumes "pc s = Normal" and "fg_colors E 38 = None" and "bg_colors E 38 = None"
  shows "feed E (chr_csi # ords ''38;2;10;20;30mw'') s =
           (None, s\<lparr>line_tokens :=
                       line_tokens s @ [(C ((self_attrs s)\<lparr>color := Some ''0a141e''\<rparr>), 119)],
                    self_attrs := (self_attrs s)\<lparr>color := Some ''0a141e''\<rparr>,
                    token := (if replace_one_token s then Token
                              else C ((self_attrs s)\<lparr>color := Some ''0a141e''\<rparr>))\<rparr>)"
  using assms
  by (simp add: ords_def send_def isdigit_ascii digit_class_ascii_digit int_current_or_0_def
      sgr_truecolor_fg)

text \<open>
  Claim C8: a decoder that waits at the top of its loop and reads the sequence
  CSI \<^verbatim>\<open>38;2;10;20;30m\<close> (introduced by ESC \<^verbatim>\<open>[\<close> or by the character 0x9B) and then
  \<^verbatim>\<open>w\<close> returns, after the tokens it held, one token for \<^verbatim>\<open>w\<close> (code point 119) whose
  style is the style before with the foreground colour \<^verbatim>\<open>0a141e\<close>; for a decoder of
  default style that is the default style with this foreground. The codes 38 must not
  be entries of the legacy colour tables, which are looked up first.
\<close>

theorem truecolor_foreground:
  assumes "pc s = Normal" and "fg_colors E 38 = None" and "bg_colors E 38 = None"
  shows "fst (read_chunk E (chr_escape # ords ''[38;2;10;20;30mw'') s) =
           Inr (line_tokens s @ [(C ((self_attrs s)\<lparr>color := Some ''0a141e''\<rparr>), 119)])
       \<and> fst (read_chunk E (chr_csi # ords ''38;2;10;20;30mw'') s) =
           Inr (line_tokens s @ [(C ((self_attrs s)\<lparr>color := Some ''0a141e''\<rparr>), 119)])"
  unfolding read_chunk_def
  by (simp del: feed.simps add: feed_truecolor_escape [OF assms] feed_truecolor_csi [OF assms])

theorem truecolor_foreground_witness:
  "pc init = Normal \<and> fg_colors sample_env 38 = None \<and> bg_colors sample_env 38 = None
   \<and> fst (read_chunk sample_env (chr_escape # ords ''[38;2;10;20;30mw'') init) =
       Inr [(C (default_attrs\<lparr>color := Some ''0a141e''\<rparr>), 119)]
   \<and> fst (read_chunk sample_env (chr_csi # ords ''38;2;10;20;30mw'') init) =
       Inr [(C (default_attrs\<lparr>color := Some ''0a141e''\<rparr>), 119)]"
  using truecolor_foreground [of init sample_env]
  by (simp add: init_def sample_env_free)

lemma fold_256_colors_outside:
  "k < 1024 + int n \<or> 1024 + int n + int (length cs) \<le> k \<Longrightarrow>
   fold (\<lambda>(i, (r, g, b)) m. m(1024 + int i \<mapsto> f r g b)) (enumerate n cs) m0 k = m0 k"
proof (induction cs arbitrary: n m0)
  case Nil
  then show ?case by simp
next
  case (Cons x cs)
  obtain r g b where x: "x = (r, g, b)" by (cases x) auto
  have "k < 1024 + int (Suc n) \<or> 1024 + int (Suc n) + int (length cs) \<le> k"
    using Cons.prems by auto
  from Cons.IH [OF this] show ?case
    using Cons.prems by (auto simp: x)
qed

lemma table_256_colors_None:
  assumes "length (colors E) \<le> 256" and "N < 0 \<or> 255 < N"
  shows "table_256_colors E (1024 + N) = None"
  unfolding table_256_colors_def
  using assms by (subst fold_256_colors_outside) auto

text \<open>
  Claim C10: with a palette of at most 256 entries, and 38 and 48 not being entries of
  the legacy colour tables, the parameters \<^verbatim>\<open>38;5;N\<close> and \<^verbatim>\<open>48;5;N\<close> with \<open>N\<close> above 255
  (or negative) raise nothing: \<^verbatim>\<open>_256_colors.get\<close> finds no entry, and the foreground,
  respectively the background, becomes \<^verbatim>\<open>None\<close>, the rest of the style being kept.
\<close>

theorem palette_index_out_of_range:
  assumes "length (colors E) \<le> 256" and "N < 0 \<or> 255 < N"
    and "fg_colors E 38 = None" and "bg_colors E 38 = None"
    and "fg_colors E 48 = None" and "bg_colors E 48 = None"
  shows "select_graphic_rendition E [38, 5, N] a = (None, a\<lparr>color := None\<rparr>)
       \<and> select_graphic_rendition E [48, 5, N] a = (None, a\<lparr>bgcolor := None\<rparr>)"
  using assms
  by (simp add: select_graphic_rendition_def sgr_body_def color_256_def true_color_def
      set_color_of_def table_256_colors_None apply_replace_def empty_replace_def)

theorem palette_index_out_of_range_witness:
  "length (colors sample_env) \<le> 256 \<and> ((256::int) < 0 \<or> 255 < (256::int))
   \<and> fg_colors sample_env 38 = None \<and> bg_colors sample_env 38 = None
   \<and> fg_colors sample_env 48 = None \<and> bg_colors sample_env 48 = None
   \<and> select_graphic_rendition sample_env [38, 5, 256]
         (default_attrs\<lparr>color := Some ''ff0000'', bgcolor := Some ''00ff00''\<rparr>) =
       (None, default_attrs\<lparr>color := None, bgcolor := Some ''00ff00''\<rparr>)
   \<and> select_graphic_rendition sample_env [48, 5, 256]
         (default_attrs\<lparr>color := Some ''ff0000'', bgcolor := Some ''00ff00''\<rparr>) =
       (None, default_attrs\<lparr>color := Some ''ff0000'', bgcolor := None\<rparr>)"
  using palette_index_out_of_range
    [of sample_env 256 "default_attrs\<lparr>color := Some ''ff0000'', bgcolor := Some ''00ff00''\<rparr>"]
  by (simp add: sample_env_free sample_palette_length)

text \<open>
  Claim C5: a code 38 or 48 that runs out of the parameters it needs leaves the colour
  as it was and raises nothing. The block for the true colours does so, by its
  \<^verbatim>\<open>try\<close> and \<^verbatim>\<open>except IndexError\<close>; the block for the 256 colours does not: on the
  parameters \<^verbatim>\<open>38;5\<close> or \<^verbatim>\<open>48;5\<close> the call \<^verbatim>\<open>m = attrs.pop()\<close> raises \<^verbatim>\<open>IndexError\<close>, and so
  does \<^verbatim>\<open>n = attrs.pop()\<close> on \<^verbatim>\<open>38\<close> alone. The exception leaves the resolver, the
  generator and \<^verbatim>\<open>read_chunk\<close>.
\<close>

theorem truncated_256_color_raises:
  "select_graphic_rendition sample_env [38, 5] default_attrs = (Some IndexError, default_attrs)
   \<and> select_graphic_rendition sample_env [48, 5] default_attrs = (Some IndexError, default_attrs)
   \<and> select_graphic_rendition sample_env [38] default_attrs = (Some IndexError, default_attrs)
   \<and> read_chunk sample_env (chr_escape # ords ''[38;5mv'') init =
       (Inl IndexError, init\<lparr>pc := Finished\<rparr>)"
  by (simp add: run_defs)

text \<open>
  The part of claim C5 that the code keeps: after \<^verbatim>\<open>38;2\<close> or \<^verbatim>\<open>48;2\<close> with fewer than
  three parameters left, the parameters left are consumed, no colour is set and the
  resolver ends without an exception.
\<close>

lemma truncated_true_color_skipped:
  assumes "attr = 38 \<or> attr = 48"
    and "fg_colors E attr = None" and "bg_colors E attr = None"
    and "length rest < 3"
  shows "sgr_loop E (attr # 2 # rest) rep a = (None, apply_replace rep a)"
proof -
  have tc: "true_color attr 2 rest rep = ([], rep)"
    using assms(4) by (auto simp: true_color_def split: list.splits)
  have c: "color_256 E attr 2 rest rep = Inr (rest, rep)"
    by (simp add: color_256_def)
  have "sgr_body E attr (2 # rest) rep a = Inr ([], rep, a)"
  proof (cases "attr = 38")
    case True
    then show ?thesis using assms(2,3) c tc by (simp add: sgr_body_def)
  next
    case False
    then have "attr = 48" using assms(1) by simp
    then show ?thesis using assms(2,3) c tc by (simp add: sgr_body_def)
  qed
  then show ?thesis by simp
qed

lemma truncated_true_color_sample:
  "fst (read_chunk sample_env (chr_escape # ords ''[38;2;10mv'') init) = Inr [(C default_attrs, 118)]"
  by (simp add: run_defs)

subsection \<open>Overstrike and the persistent style\<close>

text \<open>
  Claim C3: the style given to ordinary characters changes at an SGR sequence only,
  and the handling of a backspace touches the one overstruck character only. In the
  code the character after the overridden one is emitted with \<^verbatim>\<open>Token\<close>, whatever
  \<^verbatim>\<open>self._attrs\<close> holds: after CSI \<^verbatim>\<open>1m\<close> the input \<^verbatim>\<open>a\<close>, backspace, \<^verbatim>\<open>b\<close>, \<^verbatim>\<open>c\<close> gives \<^verbatim>\<open>c\<close>
  the token \<^verbatim>\<open>Token\<close> although \<^verbatim>\<open>self._attrs\<close> is still bold, where the same input
  without the overstrike gives \<^verbatim>\<open>c\<close> the bold style.
\<close>

theorem style_lost_after_overstrike:
  "fst (read_chunk sample_env (chr_escape # ords ''[1ma'' @ chr_backspace # ords ''bc'') init) =
     Inr [(Standout, 98), (Token, 99)]
   \<and> self_attrs (snd (read_chunk sample_env
         (chr_escape # ords ''[1ma'' @ chr_backspace # ords ''bc'') init)) =
       default_attrs\<lparr>bold := True\<rparr>
   \<and> fst (read_chunk sample_env (chr_escape # ords ''[1mbc'') init) =
       Inr [(C (default_attrs\<lparr>bold := True\<rparr>), 98), (C (default_attrs\<lparr>bold := True\<rparr>), 99)]"
  by (simp add: run_defs)

text \<open>
  Claim C4: the override of a backspace holds for one character, after which the flag
  and the override style are cleared and every later character has the persistent
  style. In the code \<^verbatim>\<open>replace_one_token\<close> is never set back to \<^verbatim>\<open>False\<close>: after the
  overstrike \<^verbatim>\<open>a\<close>, backspace, \<^verbatim>\<open>b\<close>, the sequence CSI \<^verbatim>\<open>1m\<close> and then \<^verbatim>\<open>x\<close>, \<^verbatim>\<open>y\<close> give \<^verbatim>\<open>x\<close> the
  bold style and \<^verbatim>\<open>y\<close> the token \<^verbatim>\<open>Token\<close>, the flag being still set and \<^verbatim>\<open>self._attrs\<close>
  still bold.
\<close>

theorem override_flag_never_cleared:
  "fst (read_chunk sample_env
         (ords ''a'' @ chr_backspace # ords ''b'' @ chr_escape # ords ''[1mxy'') init) =
     Inr [(Standout, 98), (C (default_attrs\<lparr>bold := True\<rparr>), 120), (Token, 121)]
   \<and> replace_one_token (snd (read_chunk sample_env
         (ords ''a'' @ chr_backspace # ords ''b'' @ chr_escape # ords ''[1mxy'') init))
   \<and> self_attrs (snd (read_chunk sample_env
         (ords ''a'' @ chr_backspace # ords ''b'' @ chr_escape # ords ''[1mxy'') init)) =
       default_attrs\<lparr>bold := True\<rparr>"
  by (simp add: run_defs)

subsection \<open>Batches\<close>

text \<open>
  Claim C2: the tokens returned for the batches of a partition, concatenated, are the
  tokens returned for the whole stream in one batch. In the code a backspace retracts
  the last token of the queue, and \<^verbatim>\<open>read_chunk\<close> empties the queue: the stream \<^verbatim>\<open>A\<close>,
  backspace, \<^verbatim>\<open>A\<close> gives one token \<^verbatim>\<open>Standout\<close> in one batch, and two tokens \<^verbatim>\<open>Token\<close>
  when the first batch ends after the first \<^verbatim>\<open>A\<close>.
\<close>

theorem split_before_backspace_differs:
  "fst (read_chunk sample_env (concat [ords ''A'', chr_backspace # ords ''A'']) init) =
     Inr [(Standout, 65)]
   \<and> fst (read_chunks sample_env [ords ''A'', chr_backspace # ords ''A''] init) =
       Inr [[(Token, 65)], [(Token, 65)]]"
  by (simp add: run_defs)

text \<open>
  What holds of the batches in the code: when every batch is guarded, the tokens
  returned for the batches, concatenated, are the tokens returned for the whole stream
  in one batch, and an exception in one run is the same exception in the other.
\<close>

lemma send_queued_after:
  assumes "\<not> (pre \<noteq> [] \<and> pc t = Normal \<and> c = chr_backspace \<and> line_tokens t = [])"
  shows "send E c (queued_after pre b t) =
           (case send E c t of (r, t') \<Rightarrow> (r, queued_after pre b t'))"
proof (cases "pc t")
  case Normal
  then show ?thesis
    using assms by (auto simp: send_def queued_after_def butlast_append)
next
  case AfterEscape
  then show ?thesis by (simp add: send_def queued_after_def)
next
  case (InCSI current params)
  then show ?thesis
    by (auto simp: send_def queued_after_def Let_def split: option.splits prod.splits)
next
  case Finished
  then show ?thesis by (simp add: send_def queued_after_def)
qed

lemma feed_queued_after:
  assumes "backspaces_guarded E (pre \<noteq> []) data t"
  shows "feed E data (queued_after pre b t) =
           (case feed E data t of (r, t') \<Rightarrow> (r, queued_after pre b t'))"
  using assms
proof (induction data arbitrary: t)
  case Nil
  then show ?case by simp
next
  case (Cons c cs)
  obtain r t' where st: "send E c t = (r, t')" by (cases "send E c t")
  have g: "\<not> (pre \<noteq> [] \<and> pc t = Normal \<and> c = chr_backspace \<and> line_tokens t = [])"
    using Cons.prems by simp
  have sq: "send E c (queued_after pre b t) = (r, queued_after pre b t')"
    using send_queued_after [OF g, of E b] by (simp add: st)
  show ?case
  proof (cases r)
    case None
    then have "backspaces_guarded E (pre \<noteq> []) cs t'"
      using Cons.prems by (simp add: st)
    from Cons.IH [OF this] show ?thesis
      by (simp add: st sq None)
  next
    case (Some e)
    then show ?thesis by (simp add: st sq)
  qed
qed

lemma feed_append:
  "feed E (xs @ ys) s =
     (case feed E xs s of (Some e, s') \<Rightarrow> (Some e, s') | (None, s') \<Rightarrow> feed E ys s')"
  by (induction xs arbitrary: s) (auto split: prod.splits option.splits)

lemma read_chunk_drains:
  "read_chunk E d s = (Inr ts, s') \<Longrightarrow> line_tokens s' = []"
  by (auto simp: read_chunk_def split: prod.splits option.splits)

lemma read_chunks_drains:
  "read_chunks E ds s = (Inr tss, s') \<Longrightarrow> ds \<noteq> [] \<Longrightarrow> line_tokens s' = []"
proof (induction ds arbitrary: s tss)
  case Nil
  then show ?case by simp
next
  case (Cons d ds)
  obtain r1 s1 where r1: "read_chunk E d s = (r1, s1)" by (cases "read_chunk E d s")
  with Cons.prems obtain ts where ts: "r1 = Inr ts"
    by (cases r1) auto
  obtain r2 s2 where r2: "read_chunks E ds s1 = (r2, s2)" by (cases "read_chunks E ds s1")
  with Cons.prems r1 ts obtain tss' where tss': "r2 = Inr tss'" and s2: "s2 = s'"
    by (cases r2) auto
  show ?case
  proof (cases "ds = []")
    case True
    then show ?thesis
      using r2 s2 read_chunk_drains [of E d s ts s1] r1 ts by simp
  next
    case False
    then show ?thesis
      using Cons.IH [of s1 tss'] r2 tss' s2 by simp
  qed
qed

lemma feed_concat_chunks:
  assumes "chunks_guarded E (pre \<noteq> []) ds t"
  shows "case read_chunks E ds t of
           (Inl e, t') \<Rightarrow> fst (feed E (concat ds) (queued_after pre b t)) = Some e
         | (Inr tss, t') \<Rightarrow>
             feed E (concat ds) (queued_after pre b t) =
               (None, queued_after (pre @ concat tss) b t')"
  using assms
proof (induction ds arbitrary: t pre)
  case Nil
  then show ?case by simp
next
  case (Cons d ds)
  define t0 where "t0 = (if d = [] then t\<lparr>eof := True\<rparr> else t)"
  have q0: "queued_after pre b t = queued_after pre b t0"
    by (simp add: t0_def queued_after_def)
  have g0: "backspaces_guarded E (pre \<noteq> []) d t0"
    using Cons.prems by (cases "d = []") (simp_all add: t0_def)
  obtain r t1 where f0: "feed E d t0 = (r, t1)" by (cases "feed E d t0")
  have fq: "feed E d (queued_after pre b t) = (r, queued_after pre b t1)"
    using feed_queued_after [OF g0, of b] by (simp add: q0 f0)
  show ?case
  proof (cases r)
    case (Some e)
    have "read_chunk E d t = (Inl e, t1)"
      using f0 Some by (simp add: read_chunk_def t0_def)
    then show ?thesis
      by (simp add: feed_append fq Some)
  next
    case None
    define t2 where "t2 = t1\<lparr>line_tokens := []\<rparr>"
    have rc: "read_chunk E d t = (Inr (line_tokens t1), t2)"
      using f0 None by (simp add: read_chunk_def t0_def t2_def)
    have g2: "chunks_guarded E (pre @ line_tokens t1 \<noteq> []) ds t2"
      using Cons.prems by (simp add: rc)
    have q2: "queued_after pre b t1 = queued_after (pre @ line_tokens t1) b t2"
      by (simp add: queued_after_def t2_def)
    have fw: "feed E (concat (d # ds)) (queued_after pre b t) =
                feed E (concat ds) (queued_after (pre @ line_tokens t1) b t2)"
      by (simp add: feed_append fq None q2)
    show ?thesis
      using Cons.IH [OF g2]
      by (simp only: fw read_chunks.simps rc) (auto split: prod.splits sum.splits)
  qed
qed

lemma split_invariance_guarded:
  assumes "chunks_guarded E False ds s" and "ds \<noteq> []"
  shows "fst (read_chunk E (concat ds) s) =
           (case fst (read_chunks E ds s) of Inl e \<Rightarrow> Inl e | Inr tss \<Rightarrow> Inr (concat tss))"
proof -
  define b where "b = (if concat ds = [] then True else eof s)"
  have w: "(if concat ds = [] then s\<lparr>eof := True\<rparr> else s) = queued_after [] b s"
    by (simp add: queued_after_def b_def)
  have g: "chunks_guarded E ([] \<noteq> ([] :: (token \<times> pychar) list)) ds s"
    using assms(1) by simp
  obtain r s' where rs: "read_chunks E ds s = (r, s')" by (cases "read_chunks E ds s")
  show ?thesis
  proof (cases r)
    case (Inl e)
    then have "fst (feed E (concat ds) (queued_after [] b s)) = Some e"
      using feed_concat_chunks [OF g, of b] rs by simp
    then obtain x where "feed E (concat ds) (queued_after [] b s) = (Some e, x)"
      by (cases "feed E (concat ds) (queued_after [] b s)") auto
    then show ?thesis
      unfolding read_chunk_def w by (simp add: rs Inl)
  next
    case (Inr tss)
    then have f: "feed E (concat ds) (queued_after [] b s) = (None, queued_after (concat tss) b s')"
      using feed_concat_chunks [OF g, of b] rs by simp
    have e: "line_tokens s' = []"
      using read_chunks_drains [of E ds s tss s'] rs Inr assms(2) by simp
    have "fst (read_chunk E (concat ds) s) =
            Inr (line_tokens (queued_after (concat tss) b s'))"
      unfolding read_chunk_def w by (simp add: f)
    then show ?thesis
      by (simp add: rs Inr queued_after_def e)
  qed
qed

subsection \<open>What the code keeps of the style and of the digits\<close>

text \<open>
  The field \<^verbatim>\<open>self._attrs\<close> changes only when the terminator \<^verbatim>\<open>m\<close> of a CSI sequence is
  read, that is in \<^verbatim>\<open>_select_graphic_rendition\<close>.
\<close>

lemma self_attrs_changes_only_at_sgr:
  assumes "send E c s = (r, s')" and "self_attrs s' \<noteq> self_attrs s"
  shows "c = chr_m \<and> (\<exists>current params. pc s = InCSI current params)"
proof (cases "pc s")
  case (InCSI current params)
  then show ?thesis
    using assms
    by (auto simp: send_def Let_def split: if_splits option.splits prod.splits)
next
  case Normal
  then show ?thesis using assms by (auto simp: send_def split: if_splits)
next
  case AfterEscape
  then show ?thesis using assms by (auto simp: send_def split: if_splits)
next
  case Finished
  then show ?thesis using assms by (auto simp: send_def)
qed

text \<open>
  A backspace that finds a token, followed at once by an ordinary character: the token
  is replaced by that character with the emphasis, \<^verbatim>\<open>Standout2\<close> after an underscore
  and \<^verbatim>\<open>Standout\<close> otherwise, and \<^verbatim>\<open>token\<close> is \<^verbatim>\<open>Token\<close> afterwards.
\<close>

lemma override_applies_to_next_character:
  assumes "pc s = Normal" and "line_tokens s = ts @ [(tk, ch)]"
    and "c \<noteq> chr_backspace" and "c \<noteq> chr_escape" and "c \<noteq> chr_csi"
  shows "feed E [chr_backspace, c] s =
           (None, s\<lparr>line_tokens := ts @ [(if ch = chr_underscore then Standout2 else Standout, c)],
                    replace_one_token := True, token := Token\<rparr>)"
  using assms by (simp add: send_def)

text \<open>
  On an input of ASCII characters \<^verbatim>\<open>int(current or 0)\<close> never raises \<^verbatim>\<open>ValueError\<close>:
  the accumulator holds the digits \<^verbatim>\<open>0\<close> to \<^verbatim>\<open>9\<close> only.
\<close>

lemma int_digits_ascii:
  "\<forall>c \<in> set cs. 48 \<le> c \<and> c \<le> 57 \<Longrightarrow> int_digits E cs acc \<noteq> None"
  by (induction cs arbitrary: acc) (simp_all add: digit_class_def)

lemma send_current_ascii:
  assumes "\<forall>d \<in> set (current_of (pc s)). 48 \<le> d \<and> d \<le> 57" and "c < 128"
  shows "\<forall>d \<in> set (current_of (pc (snd (send E c s)))). 48 \<le> d \<and> d \<le> 57"
proof (cases "pc s")
  case (InCSI current params)
  then show ?thesis
    using assms
    by (auto simp: send_def current_of_def Let_def isdigit_def digit_class_def
        split: option.splits prod.splits if_splits)
qed (auto simp: send_def current_of_def)

lemma feed_current_ascii:
  assumes "\<forall>d \<in> set (current_of (pc s)). 48 \<le> d \<and> d \<le> 57" and "\<forall>c \<in> set data. c < 128"
  shows "\<forall>d \<in> set (current_of (pc (snd (feed E data s)))). 48 \<le> d \<and> d \<le> 57"
  using assms
proof (induction data arbitrary: s)
  case Nil
  then show ?case by simp
next
  case (Cons c cs)
  obtain r s' where r: "send E c s = (r, s')" by (cases "send E c s")
  have b: "\<forall>d \<in> set (current_of (pc s')). 48 \<le> d \<and> d \<le> 57"
    using send_current_ascii [OF Cons.prems(1), of c E] Cons.prems(2) by (simp add: r)
  show ?case
  proof (cases r)
    case None
    then show ?thesis using Cons.IH [OF b] Cons.prems(2) by (simp add: r)
  next
    case (Some e)
    then show ?thesis using b by (simp add: r)
  qed
qed

lemma ascii_input_never_value_error:
  assumes "\<forall>c \<in> set data. c < 128" and "feed E data init = (r, s)"
    and "pc s = InCSI current params"
  shows "int_current_or_0 E current \<noteq> None"
proof -
  have "\<forall>d \<in> set (current_of (pc (snd (feed E data init)))). 48 \<le> d \<and> d \<le> 57"
    by (rule feed_current_ascii) (simp_all add: init_def current_of_def assms(1))
  then have "\<forall>d \<in> set current. 48 \<le> d \<and> d \<le> 57"
    using assms(2,3) by (simp add: current_of_def)
  then show ?thesis
    using int_digits_ascii [of current E 0] by (simp add: int_current_or_0_def)
qed

end
